theory Spec2Isabelle
  imports Complex_Main "HOL-Library.Word" "HOL-Library.Signed_Division" "HOL-Library.Multiset"
begin

section \<open>CudaSort: the adaptive sort scheduler of platforms/cuda/src/CudaSort.cpp\<close>

text \<open>
  The embedding follows \<^verbatim>\<open>CudaSort::CudaSort\<close> (here \<open>CudaSort_new\<close>) and
  \<^verbatim>\<open>CudaSort::sort\<close> (here \<open>CudaSort_sort\<close>) line by line.
  Both C++ \<^verbatim>\<open>int\<close> and \<^verbatim>\<open>unsigned int\<close> are 32-bit words: an \<^verbatim>\<open>int\<close> is read with
  \<open>sint\<close>, an \<^verbatim>\<open>unsigned int\<close> with \<open>unat\<close> or \<open>uint\<close>, and the conversion between
  the two keeps the bits. The members \<^verbatim>\<open>dataLength\<close>, \<^verbatim>\<open>rangeKernelSize\<close>,
  \<^verbatim>\<open>positionsKernelSize\<close> and \<^verbatim>\<open>sortKernelSize\<close> are \<^verbatim>\<open>unsigned int\<close>; the
  sizes reported by \<^verbatim>\<open>SortTrait\<close> and \<^verbatim>\<open>CudaArray\<close> are \<^verbatim>\<open>int\<close> (their declarations
  are in CudaSort.h and CudaArray.h). Every theorem below that depends on a sign states it
  as a hypothesis, so it holds for either reading of a non-negative value.
\<close>

type_synonym c_int = "32 word"
type_synonym c_uint = "32 word"

text \<open>C++ division of two \<^verbatim>\<open>int\<close>s truncates towards zero.\<close>

definition int_div :: "c_int \<Rightarrow> c_int \<Rightarrow> c_int" where
  "int_div a b = word_of_int (sint a sdiv sint b)"

record SortTrait =
  getDataSize :: c_int
  getKeySize :: c_int

record CudaArray =
  getSize :: c_int
  getElementSize :: c_int

text \<open>The two device attributes read by \<^verbatim>\<open>cuDeviceGetAttribute\<close> in the constructor.\<close>

record CudaDevice =
  MAX_BLOCK_DIM_X :: c_int
  MAX_SHARED_MEMORY_PER_BLOCK :: c_int

datatype error =
    DivisionByZero
  | SignedOverflow
  | NullDereference
  | OpenMMException string

record CudaSort =
  trait :: SortTrait
  dataRange :: "CudaArray option"
  bucketOfElement :: "CudaArray option"
  offsetInBucket :: "CudaArray option"
  bucketOffset :: "CudaArray option"
  buckets :: "CudaArray option"
  dataLength :: c_uint
  rangeKernelSize :: c_uint
  positionsKernelSize :: c_uint
  sortKernelSize :: c_uint
  isShortList :: bool

subsection \<open>The constructor\<close>

text \<open>
  Line 59: \<^verbatim>\<open>(unsigned int) ((maxSharedMem/trait->getDataSize())/2)\<close>. Dividing by zero and
  dividing \<^verbatim>\<open>INT_MIN\<close> by \<^verbatim>\<open>-1\<close> are undefined in C++; the model returns an error there.
\<close>

definition maxLocalBuffer_of :: "c_int \<Rightarrow> c_int \<Rightarrow> error + c_uint" where
  "maxLocalBuffer_of maxSharedMem dataSize =
     (if dataSize = 0 then Inl DivisionByZero
      else if maxSharedMem = - (2 ^ 31) \<and> dataSize = - 1 then Inl SignedOverflow
      else Inr (int_div (int_div maxSharedMem dataSize) 2))"

text \<open>
  Lines 61-62: \<^verbatim>\<open>for (rangeKernelSize = 1; rangeKernelSize*2 <= maxBlockSize; rangeKernelSize *= 2);\<close>
  The comparison is unsigned, and the multiplication wraps, so the loop need not end:
  \<open>None\<close> is the loop that runs forever.
\<close>

partial_function (option) rangeLoop :: "c_uint \<Rightarrow> c_int \<Rightarrow> c_uint option" where
  "rangeLoop rangeSize maxBlockSize =
     (if rangeSize * 2 \<le> maxBlockSize
      then rangeLoop (rangeSize * 2) maxBlockSize
      else Some rangeSize)"

declare rangeLoop.simps [code]

text \<open>Lines 64 and 67-68: the sort kernel's group size, then its clamp.\<close>

definition sortKernelSize_of :: "bool \<Rightarrow> c_uint \<Rightarrow> c_uint \<Rightarrow> c_uint" where
  "sortKernelSize_of isShort rangeSize maxLocalBuffer =
     (let sortSize = (if isShort then rangeSize div 2 else rangeSize div 4)
      in if sortSize > maxLocalBuffer then maxLocalBuffer else sortSize)"

text \<open>Lines 69-72: the local \<^verbatim>\<open>numBuckets\<close>; the division is by \<^verbatim>\<open>targetBucketSize\<close>.\<close>

definition numBuckets_of :: "c_uint \<Rightarrow> c_uint \<Rightarrow> error + c_uint" where
  "numBuckets_of len sortSize =
     (let targetBucketSize = sortSize div 2
      in if targetBucketSize = 0 then Inl DivisionByZero
         else let numBuckets = len div targetBucketSize
              in Inr (if numBuckets < 1 then 1 else numBuckets))"

text \<open>Lines 78-84: the workspace arrays exist only when the list is not short.\<close>

definition CudaSort_new :: "CudaDevice \<Rightarrow> SortTrait \<Rightarrow> c_uint \<Rightarrow> (error + CudaSort) option" where
  "CudaSort_new device tr len =
     (case maxLocalBuffer_of (MAX_SHARED_MEMORY_PER_BLOCK device) (getDataSize tr) of
        Inl e \<Rightarrow> Some (Inl e)
      | Inr maxLocalBuffer \<Rightarrow>
          (let isShort = (len \<le> maxLocalBuffer)
           in case rangeLoop 1 (MAX_BLOCK_DIM_X device) of
                None \<Rightarrow> None
              | Some rangeSize \<Rightarrow>
                  (let sortSize = sortKernelSize_of isShort rangeSize maxLocalBuffer
                   in case numBuckets_of len sortSize of
                        Inl e \<Rightarrow> Some (Inl e)
                      | Inr numBuckets \<Rightarrow>
                          Some (Inr \<lparr>
                            trait = tr,
                            dataRange = (if isShort then None
                              else Some \<lparr>getSize = 2, getElementSize = getKeySize tr\<rparr>),
                            bucketOfElement = (if isShort then None
                              else Some \<lparr>getSize = len, getElementSize = 4\<rparr>),
                            offsetInBucket = (if isShort then None
                              else Some \<lparr>getSize = len, getElementSize = 4\<rparr>),
                            bucketOffset = (if isShort then None
                              else Some \<lparr>getSize = numBuckets, getElementSize = 4\<rparr>),
                            buckets = (if isShort then None
                              else Some \<lparr>getSize = len, getElementSize = getDataSize tr\<rparr>),
                            dataLength = len,
                            rangeKernelSize = (if rangeSize > len then len else rangeSize),
                            positionsKernelSize =
                              (if rangeSize > numBuckets then numBuckets else rangeSize),
                            sortKernelSize = sortSize,
                            isShortList = isShort\<rparr>))))"

subsection \<open>The sort operation\<close>

text \<open>
  The device backend is the list of the calls made on the \<^verbatim>\<open>CudaContext\<close>:
  \<^verbatim>\<open>executeKernel(kernel, args, threads, blockSize, sharedSize)\<close> and \<^verbatim>\<open>clearBuffer(array)\<close>.
  Each call is recorded with the kernel's argument array and with the value of each numeric
  argument expression at the call site, in the type the expression has there; a numeric
  argument left to its default is \<open>None\<close>.
\<close>

datatype kernel =
    sortShortList
  | computeRange
  | assignElementsToBuckets
  | computeBucketPositions
  | copyDataToBuckets
  | sortBuckets

datatype workspace = DataRange | BucketOfElement | OffsetInBucket | BucketOffset | Buckets

text \<open>
  A kernel argument is a pointer to device memory (of the buffer being sorted or of a
  workspace array) or an \<^verbatim>\<open>unsigned int\<close> passed by value.
\<close>

datatype kernel_arg = DataPointer | WorkspacePointer workspace | UIntValue c_uint

datatype backend_call =
    ExecuteKernel kernel "kernel_arg list" int "int option" "int option"
  | ClearBuffer workspace

text \<open>Lines 113-140, the bucket pipeline. A null workspace pointer stops it where it is read.\<close>

definition sortBucketPath ::
  "CudaSort \<Rightarrow> CudaArray \<Rightarrow> backend_call list \<Rightarrow> (error + unit) \<times> backend_call list" where
  "sortBucketPath s data calls =
     (case dataRange s of None \<Rightarrow> (Inl NullDereference, calls) | Some _ \<Rightarrow>
      (let rangeArgs = [DataPointer, UIntValue (dataLength s), WorkspacePointer DataRange];
           calls1 = calls @ [ExecuteKernel computeRange rangeArgs (uint (rangeKernelSize s))
                               (Some (uint (rangeKernelSize s)))
                               (Some (uint (rangeKernelSize s * getKeySize (trait s))))]
       in case bucketOffset s of None \<Rightarrow> (Inl NullDereference, calls1) | Some bo \<Rightarrow>
        (let numBuckets = getSize bo;
             calls2 = calls1 @ [ClearBuffer BucketOffset]
         in if bucketOfElement s = None \<or> offsetInBucket s = None
            then (Inl NullDereference, calls2)
            else
             (let elementsArgs = [DataPointer, UIntValue (dataLength s), UIntValue numBuckets,
                                  WorkspacePointer DataRange, WorkspacePointer BucketOffset,
                                  WorkspacePointer BucketOfElement, WorkspacePointer OffsetInBucket];
                  computeArgs = [UIntValue numBuckets, WorkspacePointer BucketOffset];
                  calls3 = calls2 @
                    [ExecuteKernel assignElementsToBuckets elementsArgs (sint (getSize data)) None None,
                     ExecuteKernel computeBucketPositions computeArgs (uint (positionsKernelSize s))
                       (Some (uint (positionsKernelSize s)))
                       (Some (uint (positionsKernelSize s) * 4))]
              in if buckets s = None then (Inl NullDereference, calls3)
                 else
                  (let copyArgs = [DataPointer, WorkspacePointer Buckets, UIntValue (dataLength s),
                                   WorkspacePointer BucketOffset, WorkspacePointer BucketOfElement,
                                   WorkspacePointer OffsetInBucket];
                       calls4 = calls3 @
                         [ExecuteKernel copyDataToBuckets copyArgs (sint (getSize data)) None None];
                       sortArgs = [DataPointer, WorkspacePointer Buckets, UIntValue numBuckets,
                                   WorkspacePointer BucketOffset]
                   in if sortKernelSize s = 0 then (Inl DivisionByZero, calls4)
                      else (Inr (), calls4 @ [ExecuteKernel sortBuckets sortArgs
                              (uint (((getSize data + sortKernelSize s - 1) div sortKernelSize s)
                                       * sortKernelSize s))
                              (Some (uint (sortKernelSize s)))
                              (Some (uint (sortKernelSize s * getDataSize (trait s))))]))))))"

text \<open>Lines 101-142.\<close>

definition CudaSort_sort :: "CudaSort \<Rightarrow> CudaArray \<Rightarrow> backend_call list \<Rightarrow> (error + unit) \<times> backend_call list" where
  "CudaSort_sort s data calls =
     (if getSize data \<noteq> dataLength s \<or> getElementSize data \<noteq> getDataSize (trait s)
      then (Inl (OpenMMException ''CudaSort called with different data size''), calls)
      else if getSize data = 0 then (Inr (), calls)
      else if isShortList s
      then (let sortArgs = [DataPointer, UIntValue (dataLength s)]
            in (Inr (), calls @ [ExecuteKernel sortShortList sortArgs (uint (sortKernelSize s))
                                   (Some (uint (sortKernelSize s)))
                                   (Some (uint (dataLength s * getDataSize (trait s))))]))
      else sortBucketPath s data calls)"

subsection \<open>Notions used to state the properties\<close>

text \<open>
  The invariant of the loop of lines 61-62, as a postcondition: started from a power of two
  (or from the wrapped value 0) that is 1 or does not exceed the block size, the loop can
  only stop at a power of two below \<open>2 ^ 31\<close>, which is 1 or does not exceed the block
  size, and whose double exceeds it.
\<close>

definition rangeLoop_post :: "c_uint \<Rightarrow> c_int \<Rightarrow> c_uint \<Rightarrow> bool" where
  "rangeLoop_post r m y \<longleftrightarrow>
     ((r = 0 \<or> (\<exists>k<32. uint r = 2 ^ k)) \<longrightarrow> (r \<le> m \<or> r = 1) \<longrightarrow>
      (\<exists>k<31. uint y = 2 ^ k) \<and> (y \<le> m \<or> y = 1) \<and> uint m < 2 * uint y)"


text \<open>
  A group size is a power of two when it is one of \<open>2 ^ 0, \<dots>, 2 ^ 31\<close>; \<open>p\<close> is the
  largest power of two not exceeding the block size \<open>n\<close> when it is one, does not exceed
  \<open>n\<close>, and its double does.
\<close>

definition power_of_two :: "c_uint \<Rightarrow> bool" where
  "power_of_two w \<longleftrightarrow> list_ex (\<lambda>k. w = 2 ^ k) [0..<32]"

definition largest_power_of_two_le :: "c_uint \<Rightarrow> c_int \<Rightarrow> bool" where
  "largest_power_of_two_le p n \<longleftrightarrow> power_of_two p \<and> uint p \<le> sint n \<and> sint n < 2 * uint p"




text \<open>
  Concrete inputs used to exercise the theorems: the device of the specification's scenarios
  (block size 1024, 49152 bytes of shared memory), a record of 8 bytes with a key of 4, and
  the scheduler the constructor builds from them for a short list.
\<close>

abbreviation (input) device_1024_48K :: CudaDevice where
  "device_1024_48K \<equiv> \<lparr>MAX_BLOCK_DIM_X = 1024, MAX_SHARED_MEMORY_PER_BLOCK = 49152\<rparr>"

abbreviation (input) trait_8_4 :: SortTrait where
  "trait_8_4 \<equiv> \<lparr>getDataSize = 8, getKeySize = 4\<rparr>"

abbreviation (input) short_sorter :: "c_uint \<Rightarrow> c_uint \<Rightarrow> c_uint \<Rightarrow> CudaSort" where
  "short_sorter len rangeSize positionsSize \<equiv>
     \<lparr>trait = trait_8_4, dataRange = None, bucketOfElement = None, offsetInBucket = None,
      bucketOffset = None, buckets = None, dataLength = len, rangeKernelSize = rangeSize,
      positionsKernelSize = positionsSize, sortKernelSize = 512, isShortList = True\<rparr>"

abbreviation (input) bucket_sorter :: "SortTrait \<Rightarrow> c_uint \<Rightarrow> c_uint \<Rightarrow> c_uint \<Rightarrow> c_uint \<Rightarrow> CudaSort" where
  "bucket_sorter tr len numBuckets positionsSize sortSize \<equiv>
     \<lparr>trait = tr,
      dataRange = Some \<lparr>getSize = 2, getElementSize = getKeySize tr\<rparr>,
      bucketOfElement = Some \<lparr>getSize = len, getElementSize = 4\<rparr>,
      offsetInBucket = Some \<lparr>getSize = len, getElementSize = 4\<rparr>,
      bucketOffset = Some \<lparr>getSize = numBuckets, getElementSize = 4\<rparr>,
      buckets = Some \<lparr>getSize = len, getElementSize = getDataSize tr\<rparr>,
      dataLength = len, rangeKernelSize = 1024,
      positionsKernelSize = positionsSize, sortKernelSize = sortSize, isShortList = False\<rparr>"


subsection \<open>The device kernels and the buffer they work on\<close>
















text \<open>
  The records a bucket receives, in the order of the buffer, and the index in the scratch
  buffer at which the scatter writes record \<open>i\<close>.
\<close>

definition bucketLists :: "('a \<Rightarrow> nat) \<Rightarrow> nat \<Rightarrow> 'a list \<Rightarrow> 'a list list" where
  "bucketLists f numBuckets xs = map (\<lambda>b. filter (\<lambda>y. f y = b) xs) [0..<numBuckets]"











section \<open>Machine arithmetic\<close>

lemma uint_32_bound: "uint (w :: 32 word) < 4294967296"
  using uint_lt2p [of w] by (simp del: uint_lt2p)

lemma sint_32_cases:
  "sint (w :: 32 word) = (if uint w < 2147483648 then uint w else uint w - 4294967296)"
proof -
  have b: "0 \<le> uint w" "uint w < 4294967296"
    using uint_32_bound [of w] by simp_all
  have s: "sint w = (uint w + 2147483648) mod 4294967296 - 2147483648"
    using int_word_sint [where 'a = 32, of "uint w"] by (simp add: word_of_int_uint)
  show ?thesis
  proof (cases "uint w < 2147483648")
    case True
    then have "(uint w + 2147483648) mod 4294967296 = uint w + 2147483648"
      using b by (intro mod_pos_pos_trivial) simp_all
    with True s show ?thesis by simp
  next
    case False
    have "(uint w + 2147483648) mod 4294967296 = uint w - 2147483648"
      by (rule int_mod_pos_eq [where q = 1]) (use False b in simp_all)
    with False s show ?thesis by simp
  qed
qed

lemma sint_nonneg_32: "0 \<le> sint (w :: 32 word) \<longleftrightarrow> uint w < 2147483648"
proof (cases "uint w < 2147483648")
  case True
  then show ?thesis by (simp add: sint_32_cases)
next
  case False
  have "uint w - 4294967296 < 0"
    using uint_32_bound [of w] by linarith
  with False show ?thesis by (simp add: sint_32_cases)
qed

lemma sint_nonneg_uint: "0 \<le> sint (w :: 32 word) \<Longrightarrow> sint w = uint w"
  using sint_nonneg_32 [of w] by (simp add: sint_32_cases)

lemma sint_pos_uint: "0 < sint (w :: 32 word) \<Longrightarrow> 0 < uint w"
  using sint_nonneg_uint [of w] by simp

lemma int_div_nonneg:
  assumes "0 \<le> sint a" "0 < sint b"
  shows "uint (int_div a b) = uint a div uint b" and "0 \<le> sint (int_div a b)"
proof -
  have a: "sint a = uint a" "uint a < 2147483648"
    using assms(1) by (simp_all add: sint_nonneg_uint sint_nonneg_32)
  have b: "sint b = uint b" "0 < uint b"
    using assms(2) by (simp_all add: sint_nonneg_uint sint_pos_uint)
  have q: "sint a sdiv sint b = uint a div uint b"
    using a b by (simp add: signed_divide_int_def sgn_if)
  have le: "uint a div uint b \<le> uint a"
    using b(2) by (simp add: zdiv_mono2 [of "uint a" 1 "uint b", simplified])
  have lt: "uint a div uint b < 2147483648" "0 \<le> uint a div uint b"
    using le a(2) b(2) by (simp_all add: pos_imp_zdiv_nonneg_iff)
  show u: "uint (int_div a b) = uint a div uint b"
    unfolding int_div_def q using lt by (simp add: uint_word_of_int mod_pos_pos_trivial)
  show "0 \<le> sint (int_div a b)"
    using lt by (simp add: sint_nonneg_32 u)
qed

section \<open>The loop of lines 61-62\<close>

lemma uint_twice: "uint (r * 2 :: 32 word) = (uint r * 2) mod 4294967296"
  by (simp add: uint_word_ariths)

lemma pow2_step:
  assumes "k < 32" "uint (r :: 32 word) = 2 ^ k"
  shows "r * 2 = 0 \<or> (\<exists>j<32. uint (r * 2) = 2 ^ j)"
proof (cases "k = 31")
  case True
  then have "uint (r * 2) = 0" using assms by (simp add: uint_twice)
  then show ?thesis by (simp add: uint_0_iff)
next
  case False
  then have k: "Suc k < 32" using assms by simp
  then have "(2::int) ^ Suc k < 2 ^ 32" by (intro power_strict_increasing) simp_all
  then have "uint (r * 2) = 2 ^ Suc k"
    using assms by (simp add: uint_twice mod_pos_pos_trivial)
  with k show ?thesis by blast
qed

lemma pow2_exit:
  assumes "k < 32" "uint (r :: 32 word) = 2 ^ k" "\<not> r * 2 \<le> m"
  shows "k < 31 \<and> uint m < 2 * uint r"
proof -
  have k31: "k \<noteq> 31"
  proof
    assume "k = 31"
    then have "uint (r * 2) = 0" using assms by (simp add: uint_twice)
    then have "r * 2 = 0" by (simp add: uint_0_iff)
    with assms(3) show False by simp
  qed
  then have k: "Suc k < 32" using assms by simp
  then have "(2::int) ^ Suc k < 2 ^ 32" by (intro power_strict_increasing) simp_all
  then have "uint (r * 2) = 2 * uint r"
    using assms by (simp add: uint_twice mod_pos_pos_trivial)
  with assms(3) k show ?thesis by (simp add: word_le_def)
qed

lemma rangeLoop_partial:
  assumes "rangeLoop r m = Some y"
  shows "rangeLoop_post r m y"
proof (rule rangeLoop.raw_induct [where P = rangeLoop_post, OF _ assms])
  fix f and r m y :: "32 word"
  assume IH: "\<And>a b c. f a b = Some c \<Longrightarrow> rangeLoop_post a b c"
    and eq: "(if r * 2 \<le> m then f (r * 2) m else Some r) = Some y"
  show "rangeLoop_post r m y"
    unfolding rangeLoop_post_def
  proof (intro impI)
    assume inv: "r = 0 \<or> (\<exists>k<32. uint r = 2 ^ k)" and le: "r \<le> m \<or> r = 1"
    show "(\<exists>k<31. uint y = 2 ^ k) \<and> (y \<le> m \<or> y = 1) \<and> uint m < 2 * uint y"
    proof (cases "r * 2 \<le> m")
      case True
      then have call: "f (r * 2) m = Some y" using eq by simp
      have "r * 2 = 0 \<or> (\<exists>j<32. uint (r * 2) = 2 ^ j)"
        using inv pow2_step by auto
      with IH [OF call] True show ?thesis unfolding rangeLoop_post_def by blast
    next
      case False
      then have y: "y = r" using eq by simp
      have "r \<noteq> 0" using False by auto
      with inv obtain k where k: "k < 32" "uint r = 2 ^ k" by blast
      from pow2_exit [OF k False] k le y show ?thesis by auto
    qed
  qed
qed

lemma rangeLoop_result:
  assumes "rangeLoop 1 m = Some y"
  shows "(\<exists>k<31. uint y = 2 ^ k) \<and> (y \<le> m \<or> y = 1) \<and> uint m < 2 * uint y"
proof -
  have "\<exists>k<32. uint (1 :: 32 word) = 2 ^ k"
    by (rule exI [of _ 0]) simp
  with rangeLoop_partial [OF assms] show ?thesis
    unfolding rangeLoop_post_def by blast
qed

lemma rangeLoop_terminates_aux:
  "0 < uint r \<Longrightarrow> uint r < 2147483648 \<Longrightarrow> uint m < 2147483648 \<Longrightarrow> \<exists>y. rangeLoop r m = Some y"
proof (induction "nat (uint m - uint r)" arbitrary: r rule: less_induct)
  case less
  have tw: "uint (r * 2) = 2 * uint r"
    using less.prems by (simp add: uint_twice mod_pos_pos_trivial)
  show ?case
  proof (cases "r * 2 \<le> m")
    case True
    then have le: "2 * uint r \<le> uint m" by (simp add: word_le_def tw)
    have "\<exists>y. rangeLoop (r * 2) m = Some y"
      by (rule less.hyps) (use le less.prems tw in simp_all)
    with True show ?thesis by (subst rangeLoop.simps) simp
  next
    case False
    then show ?thesis by (subst rangeLoop.simps) simp
  qed
qed

lemma rangeLoop_terminates:
  "0 \<le> sint m \<Longrightarrow> \<exists>y. rangeLoop 1 m = Some y"
  by (rule rangeLoop_terminates_aux) (simp_all add: sint_nonneg_32)

section \<open>What a successful construction fixes\<close>

lemma CudaSort_new_Inr:
  assumes "CudaSort_new device tr len = Some (Inr s)"
  obtains maxLocalBuffer rangeSize numBuckets where
    "maxLocalBuffer_of (MAX_SHARED_MEMORY_PER_BLOCK device) (getDataSize tr) = Inr maxLocalBuffer"
    "rangeLoop 1 (MAX_BLOCK_DIM_X device) = Some rangeSize"
    "numBuckets_of len (sortKernelSize s) = Inr numBuckets"
    "sortKernelSize s = sortKernelSize_of (len \<le> maxLocalBuffer) rangeSize maxLocalBuffer"
    "isShortList s = (len \<le> maxLocalBuffer)"
    "rangeKernelSize s = (if rangeSize > len then len else rangeSize)"
    "positionsKernelSize s = (if rangeSize > numBuckets then numBuckets else rangeSize)"
    "dataLength s = len" "trait s = tr"
    "bucketOffset s = (if isShortList s then None else Some \<lparr>getSize = numBuckets, getElementSize = 4\<rparr>)"
    "dataRange s = (if isShortList s then None else Some \<lparr>getSize = 2, getElementSize = getKeySize tr\<rparr>)"
    "bucketOfElement s = (if isShortList s then None else Some \<lparr>getSize = len, getElementSize = 4\<rparr>)"
    "offsetInBucket s = (if isShortList s then None else Some \<lparr>getSize = len, getElementSize = 4\<rparr>)"
    "buckets s = (if isShortList s then None else Some \<lparr>getSize = len, getElementSize = getDataSize tr\<rparr>)"
  using assms unfolding CudaSort_new_def Let_def
  by (auto split: sum.splits option.splits)

lemma maxLocalBuffer_of_nonneg:
  assumes "0 < sint dataSize" "0 \<le> sint maxSharedMem"
  shows "\<exists>b. maxLocalBuffer_of maxSharedMem dataSize = Inr b
             \<and> uint b = uint maxSharedMem div uint dataSize div 2"
proof -
  have nz: "dataSize \<noteq> 0" using assms(1) by auto
  have nm: "dataSize \<noteq> - 1" using assms(1) by auto
  have "uint (int_div (int_div maxSharedMem dataSize) 2) = uint (int_div maxSharedMem dataSize) div uint (2 :: 32 word)"
    by (rule int_div_nonneg(1)) (simp_all add: int_div_nonneg(2) assms)
  then have "uint (int_div (int_div maxSharedMem dataSize) 2) = uint maxSharedMem div uint dataSize div 2"
    by (simp add: int_div_nonneg(1) assms)
  then show ?thesis using nz nm by (simp add: maxLocalBuffer_of_def)
qed

lemma floor_half_quotient:
  assumes "0 < (d::int)"
  shows "\<lfloor>real_of_int a / real_of_int d / 2\<rfloor> = a div d div 2"
proof -
  have "real_of_int a / real_of_int d / 2 = real_of_int a / real_of_int (d * 2)"
    by simp
  then have "\<lfloor>real_of_int a / real_of_int d / 2\<rfloor> = a div (d * 2)"
    by (simp only: floor_divide_of_int_eq)
  also have "\<dots> = a div d div 2"
    using assms by (simp add: zdiv_zmult2_eq)
  finally show ?thesis .
qed


lemma uint_pow2_32: "k < 32 \<Longrightarrow> uint (2 ^ k :: 32 word) = 2 ^ k"
proof -
  assume k: "k < 32"
  then have "(2::int) ^ k < 2 ^ 32" by (intro power_strict_increasing) simp_all
  moreover have "uint (2 ^ k :: 32 word) = 2 ^ k mod 2 ^ 32"
    using uint_word_of_int [where 'a = 32, of "2 ^ k"] by (simp add: word_of_int_2p)
  ultimately show ?thesis by simp
qed

lemma power_of_two_uint: "power_of_two w \<longleftrightarrow> (\<exists>k<32. uint w = 2 ^ k)"
proof
  assume "power_of_two w"
  then obtain k where "k < 32" "w = 2 ^ k" by (auto simp: power_of_two_def list_ex_iff)
  then show "\<exists>k<32. uint w = 2 ^ k" using uint_pow2_32 by blast
next
  assume "\<exists>k<32. uint w = 2 ^ k"
  then obtain k where k: "k < 32" "uint w = 2 ^ k" by blast
  then have "uint w = uint (2 ^ k :: 32 word)" by (simp add: uint_pow2_32)
  then have "w = 2 ^ k" by (simp only: word_uint_eq_iff)
  with k(1) show "power_of_two w" by (auto simp: power_of_two_def list_ex_iff)
qed

lemma uint_half: "uint (w div 2 :: 32 word) = uint w div 2"
  by (simp add: uint_div_distrib)

lemma uint_quarter: "uint (w div 4 :: 32 word) = uint w div 4"
  by (simp add: uint_div_distrib)

lemma pow2_div2: "0 < k \<Longrightarrow> (2::int) ^ k div 2 = 2 ^ (k - 1)"
  by (cases k) simp_all

lemma pow2_div4: "1 < k \<Longrightarrow> (2::int) ^ k div 4 = 2 ^ (k - 2)"
proof -
  assume "1 < k"
  then obtain j where "k = Suc (Suc j)" by (metis Suc_lessE less_Suc_eq_0_disj less_nat_zero_code not_less_eq One_nat_def)
  then show ?thesis by simp
qed

lemma uint_sortKernelSize_of:
  "uint (sortKernelSize_of isShort rangeSize maxLocalBuffer) =
     min (if isShort then uint rangeSize div 2 else uint rangeSize div 4) (uint maxLocalBuffer)"
  by (simp add: sortKernelSize_of_def Let_def word_less_def uint_half uint_quarter min_def)

lemma numBuckets_of_Inr:
  assumes "numBuckets_of len sortSize = Inr n"
  shows "2 \<le> uint sortSize" and "uint n = max 1 (uint len div (uint sortSize div 2))"
proof -
  have nz: "sortSize div 2 \<noteq> 0"
    using assms by (auto simp: numBuckets_of_def Let_def split: if_splits)
  then have "uint sortSize div 2 \<noteq> 0"
    by (metis uint_half uint_0_iff)
  then show "2 \<le> uint sortSize"
    by (metis div_pos_pos_trivial not_le uint_ge_0)
  have n: "n = (if len div (sortSize div 2) < 1 then 1 else len div (sortSize div 2))"
    using assms nz by (simp add: numBuckets_of_def Let_def)
  show "uint n = max 1 (uint len div (uint sortSize div 2))"
    unfolding n by (simp add: word_less_def uint_div_distrib uint_half max_def)
qed

lemma pow2_ge_imp: "4 \<le> (2::int) ^ k \<Longrightarrow> 1 < k"
proof (rule ccontr)
  assume a: "4 \<le> (2::int) ^ k" and "\<not> 1 < k"
  then have "k = 0 \<or> k = 1" by auto
  with a show False by auto
qed

lemma rangeSize_facts:
  assumes loop: "rangeLoop 1 m = Some p"
    and big: "4 \<le> uint p"
  shows "largest_power_of_two_le p m" and "power_of_two (p div 2)" and "power_of_two (p div 4)"
    and "uint p \<le> uint m" and "sint m = uint m"
proof -
  from rangeLoop_result [OF loop] obtain k where
    k: "k < 31" "uint p = 2 ^ k" and le: "p \<le> m \<or> p = 1" and lt: "uint m < 2 * uint p"
    by blast
  have "p \<noteq> 1" using big by auto
  with le show pm: "uint p \<le> uint m" by (simp add: word_le_def)
  have "(2::int) ^ k \<le> 2 ^ 30" using k(1) by (intro power_increasing) simp_all
  with lt k(2) have "uint m < 2147483648" by simp
  then show sm: "sint m = uint m" by (simp add: sint_nonneg_32 sint_nonneg_uint)
  have "4 \<le> (2::int) ^ k" using big k(2) by simp
  then have k1: "1 < k" by (rule pow2_ge_imp)
  have p: "power_of_two p" using k by (auto simp: power_of_two_uint)
  show "largest_power_of_two_le p m"
    using p pm lt sm by (simp add: largest_power_of_two_le_def)
  have "uint (p div 2) = 2 ^ (k - 1)" using k1 k(2) by (simp add: uint_half pow2_div2)
  moreover have "k - 1 < 32" using k(1) by simp
  ultimately show "power_of_two (p div 2)" unfolding power_of_two_uint by blast
  have "uint (p div 4) = 2 ^ (k - 2)" using k1 k(2) by (simp add: uint_quarter pow2_div4)
  moreover have "k - 2 < 32" using k(1) by simp
  ultimately show "power_of_two (p div 4)" unfolding power_of_two_uint by blast
qed

lemma CudaSort_new_sizes:
  assumes "CudaSort_new device tr len = Some (Inr s)"
  obtains maxLocalBuffer rangeSize numBuckets where
    "maxLocalBuffer_of (MAX_SHARED_MEMORY_PER_BLOCK device) (getDataSize tr) = Inr maxLocalBuffer"
    "rangeLoop 1 (MAX_BLOCK_DIM_X device) = Some rangeSize"
    "numBuckets_of len (sortKernelSize s) = Inr numBuckets"
    "4 \<le> uint rangeSize"
    "2 \<le> uint (sortKernelSize s)"
    "uint (sortKernelSize s) =
       min (if isShortList s then uint rangeSize div 2 else uint rangeSize div 4) (uint maxLocalBuffer)"
    "sortKernelSize s = (if isShortList s then rangeSize div 2 else rangeSize div 4)
       \<or> sortKernelSize s = maxLocalBuffer"
    "uint numBuckets = max 1 (uint len div (uint (sortKernelSize s) div 2))"
    "isShortList s = (len \<le> maxLocalBuffer)"
    "rangeKernelSize s = (if rangeSize > len then len else rangeSize)"
    "positionsKernelSize s = (if rangeSize > numBuckets then numBuckets else rangeSize)"
proof -
  from assms obtain b p n where f:
    "maxLocalBuffer_of (MAX_SHARED_MEMORY_PER_BLOCK device) (getDataSize tr) = Inr b"
    "rangeLoop 1 (MAX_BLOCK_DIM_X device) = Some p"
    "numBuckets_of len (sortKernelSize s) = Inr n"
    "sortKernelSize s = sortKernelSize_of (len \<le> b) p b"
    "isShortList s = (len \<le> b)"
    "rangeKernelSize s = (if p > len then len else p)"
    "positionsKernelSize s = (if p > n then n else p)"
    by (rule CudaSort_new_Inr)
  have u: "uint (sortKernelSize s) = min (if isShortList s then uint p div 2 else uint p div 4) (uint b)"
    by (simp add: f(4,5) uint_sortKernelSize_of)
  have two: "2 \<le> uint (sortKernelSize s)" by (rule numBuckets_of_Inr(1) [OF f(3)])
  have "2 \<le> uint p div 2" using u two by (auto split: if_splits)
  then have four: "4 \<le> uint p" by simp
  have c: "sortKernelSize s = (if isShortList s then p div 2 else p div 4) \<or> sortKernelSize s = b"
    by (simp add: f(4,5) sortKernelSize_of_def Let_def)
  show ?thesis
    by (rule that [OF f(1,2,3) four two u c numBuckets_of_Inr(2) [OF f(3)] f(5,6,7)])
qed

lemma new_short_2000:
  "CudaSort_new device_1024_48K trait_8_4 2000 = Some (Inr (short_sorter 2000 1024 7))"
  by code_simp

lemma new_bucket_million:
  "CudaSort_new device_1024_48K trait_8_4 1000000
     = Some (Inr (bucket_sorter trait_8_4 1000000 7812 1024 256))"
  by code_simp


lemma numBuckets_of_succeeds:
  assumes "2 \<le> uint sortSize"
  shows "\<exists>n. numBuckets_of len sortSize = Inr n"
proof -
  have "1 \<le> uint sortSize div 2" using assms by simp
  then have "uint (sortSize div 2) \<noteq> 0" by (simp add: uint_half)
  then have "sortSize div 2 \<noteq> 0" by (simp add: uint_0_iff)
  then show ?thesis by (simp add: numBuckets_of_def Let_def)
qed

lemma CudaSort_new_succeeds:
  assumes d: "0 < sint (getDataSize tr)"
    and m: "0 \<le> sint (MAX_SHARED_MEMORY_PER_BLOCK device)"
    and blk: "8 \<le> sint (MAX_BLOCK_DIM_X device)"
    and cap: "2 \<le> uint (MAX_SHARED_MEMORY_PER_BLOCK device) div uint (getDataSize tr) div 2"
  shows "\<exists>s. CudaSort_new device tr len = Some (Inr s)"
proof -
  let ?m = "MAX_BLOCK_DIM_X device"
  obtain b where b: "maxLocalBuffer_of (MAX_SHARED_MEMORY_PER_BLOCK device) (getDataSize tr) = Inr b"
      "uint b = uint (MAX_SHARED_MEMORY_PER_BLOCK device) div uint (getDataSize tr) div 2"
    using maxLocalBuffer_of_nonneg [OF d m] by blast
  have m0: "0 \<le> sint ?m" using blk by simp
  then obtain p where p: "rangeLoop 1 ?m = Some p"
    using rangeLoop_terminates by blast
  from rangeLoop_result [OF p] obtain k where k: "uint p = 2 ^ k" and lt: "uint ?m < 2 * uint p"
    by blast
  have "8 \<le> uint ?m" using blk sint_nonneg_uint [OF m0] by simp
  with lt k have big: "(4::int) < 2 ^ k" by simp
  have "3 \<le> k"
  proof (rule ccontr)
    assume "\<not> 3 \<le> k"
    then have "k = 0 \<or> k = 1 \<or> k = 2" by auto
    with big show False by auto
  qed
  then have "(2::int) ^ 3 \<le> 2 ^ k" by (intro power_increasing) simp_all
  then have p8: "8 \<le> uint p" using k by simp
  then have "2 \<le> uint p div 4" "2 \<le> uint p div 2" by simp_all
  then have "2 \<le> uint (sortKernelSize_of (len \<le> b) p b)"
    using cap b(2) by (simp add: uint_sortKernelSize_of)
  then obtain n where "numBuckets_of len (sortKernelSize_of (len \<le> b) p b) = Inr n"
    using numBuckets_of_succeeds by blast
  then show ?thesis
    by (simp add: CudaSort_new_def b(1) p Let_def)
qed


section \<open>Strategy selection (claim C1)\<close>

lemma capacity_floor:
  assumes "0 < sint (dataSize :: c_int)" and "0 \<le> sint (maxSharedMem :: c_int)"
  shows "\<lfloor>real_of_int (sint maxSharedMem) / real_of_int (sint dataSize) / 2\<rfloor>
           = uint maxSharedMem div uint dataSize div 2"
proof -
  have "sint maxSharedMem = uint maxSharedMem" "sint dataSize = uint dataSize" "0 < uint dataSize"
    using assms by (simp_all add: sint_nonneg_uint sint_pos_uint)
  then show ?thesis by (simp only: floor_half_quotient)
qed

text \<open>
  Claim C1. For a record of positive data size \<open>D\<close> and a device with shared memory
  \<open>S \<ge> 0\<close>: the constructor returns a scheduler for every length whenever the block size is
  at least 8 and \<open>\<lfloor>S / D / 2\<rfloor>\<close> at least 2; and whenever it returns one for length \<open>L\<close>,
  \<^verbatim>\<open>isShortList\<close> holds exactly when \<open>L \<le> \<lfloor>S / D / 2\<rfloor>\<close>, the quotient taken in the reals, and
  any other scheduler built for the same length, data size and shared-memory limit has the
  same \<^verbatim>\<open>isShortList\<close>.
\<close>

theorem isShortList_iff_length_le_capacity:
  assumes "0 < sint (getDataSize tr)"
    and "0 \<le> sint (MAX_SHARED_MEMORY_PER_BLOCK device)"
  shows "(8 \<le> sint (MAX_BLOCK_DIM_X device)
          \<and> 2 \<le> \<lfloor>real_of_int (sint (MAX_SHARED_MEMORY_PER_BLOCK device))
                     / real_of_int (sint (getDataSize tr)) / 2\<rfloor>
          \<longrightarrow> (\<exists>s. CudaSort_new device tr len = Some (Inr s)))
    \<and> (\<forall>s. CudaSort_new device tr len = Some (Inr s) \<longrightarrow>
          (isShortList s \<longleftrightarrow>
             uint len \<le> \<lfloor>real_of_int (sint (MAX_SHARED_MEMORY_PER_BLOCK device))
                            / real_of_int (sint (getDataSize tr)) / 2\<rfloor>)
          \<and> (\<forall>device' tr' s'. CudaSort_new device' tr' len = Some (Inr s')
                 \<and> getDataSize tr' = getDataSize tr
                 \<and> MAX_SHARED_MEMORY_PER_BLOCK device' = MAX_SHARED_MEMORY_PER_BLOCK device
                 \<longrightarrow> isShortList s' = isShortList s))"
proof -
  let ?S = "MAX_SHARED_MEMORY_PER_BLOCK device" and ?D = "getDataSize tr"
  note fl = capacity_floor [OF assms]
  obtain b where b: "maxLocalBuffer_of ?S ?D = Inr b" "uint b = uint ?S div uint ?D div 2"
    using maxLocalBuffer_of_nonneg [OF assms] by blast
  have total: "\<exists>s. CudaSort_new device tr len = Some (Inr s)"
    if "8 \<le> sint (MAX_BLOCK_DIM_X device)"
      and "2 \<le> \<lfloor>real_of_int (sint ?S) / real_of_int (sint ?D) / 2\<rfloor>"
    using that(2) by (intro CudaSort_new_succeeds assms that(1)) (simp only: fl)
  have short: "isShortList s' = (len \<le> b)"
    if "CudaSort_new device' tr' len = Some (Inr s')" "getDataSize tr' = ?D"
       "MAX_SHARED_MEMORY_PER_BLOCK device' = ?S" for device' tr' s'
    using that b(1) by (auto elim!: CudaSort_new_Inr)
  have flag: "isShortList s \<longleftrightarrow> uint len \<le> \<lfloor>real_of_int (sint ?S) / real_of_int (sint ?D) / 2\<rfloor>"
    if "CudaSort_new device tr len = Some (Inr s)" for s
    unfolding fl using short [OF that] by (simp add: word_le_def b(2))
  have same: "isShortList s' = isShortList s"
    if "CudaSort_new device tr len = Some (Inr s)"
      "CudaSort_new device' tr' len = Some (Inr s')" "getDataSize tr' = ?D"
      "MAX_SHARED_MEMORY_PER_BLOCK device' = ?S" for s device' tr' s'
    using short [OF that(2,3,4)] short [OF that(1)] by simp
  from total flag same show ?thesis by blast
qed

theorem isShortList_iff_length_le_capacity_witness:
  "0 < sint (getDataSize trait_8_4)
   \<and> 0 \<le> sint (MAX_SHARED_MEMORY_PER_BLOCK device_1024_48K)
   \<and> 8 \<le> sint (MAX_BLOCK_DIM_X device_1024_48K)
   \<and> 2 \<le> \<lfloor>real_of_int (sint (49152 :: c_int)) / real_of_int (sint (8 :: c_int)) / 2\<rfloor>
   \<and> (\<exists>s. CudaSort_new device_1024_48K trait_8_4 5000 = Some (Inr s))
   \<and> CudaSort_new device_1024_48K trait_8_4 2000 = Some (Inr (short_sorter 2000 1024 7))
   \<and> isShortList (short_sorter 2000 1024 7)
   \<and> uint (2000 :: c_uint) \<le> \<lfloor>real_of_int (sint (49152 :: c_int)) / real_of_int (sint (8 :: c_int)) / 2\<rfloor>
   \<and> CudaSort_new device_1024_48K trait_8_4 1000000
        = Some (Inr (bucket_sorter trait_8_4 1000000 7812 1024 256))
   \<and> \<not> isShortList (bucket_sorter trait_8_4 1000000 7812 1024 256)
   \<and> \<not> uint (1000000 :: c_uint) \<le> \<lfloor>real_of_int (sint (49152 :: c_int)) / real_of_int (sint (8 :: c_int)) / 2\<rfloor>"
proof -
  have d: "0 < sint (getDataSize trait_8_4)" by simp
  have m: "0 \<le> sint (MAX_SHARED_MEMORY_PER_BLOCK device_1024_48K)" by simp
  have blk: "8 \<le> sint (MAX_BLOCK_DIM_X device_1024_48K)" by simp
  have cap: "2 \<le> \<lfloor>real_of_int (sint (49152 :: c_int)) / real_of_int (sint (8 :: c_int)) / 2\<rfloor>"
    by simp
  from isShortList_iff_length_le_capacity [OF d m, of 5000] blk cap
  have total: "\<exists>s. CudaSort_new device_1024_48K trait_8_4 5000 = Some (Inr s)" by simp
  from isShortList_iff_length_le_capacity [OF d m, of 2000] new_short_2000
  have short: "uint (2000 :: c_uint) \<le> \<lfloor>real_of_int (sint (49152 :: c_int)) / real_of_int (sint (8 :: c_int)) / 2\<rfloor>"
    by simp
  from isShortList_iff_length_le_capacity [OF d m, of 1000000] new_bucket_million
  have long: "\<not> uint (1000000 :: c_uint) \<le> \<lfloor>real_of_int (sint (49152 :: c_int)) / real_of_int (sint (8 :: c_int)) / 2\<rfloor>"
    by simp
  from d m blk cap total short long new_short_2000 new_bucket_million show ?thesis by simp
qed

section \<open>Group sizes (claim C3)\<close>

text \<open>
  Claim C3 as stated fails: lines 65-66 cut \<^verbatim>\<open>rangeKernelSize\<close> down to the length, which
  need not be a power of two. For length 3 on the scenario device the range group size is 3.
\<close>

theorem group_sizes_counterexample:
  "CudaSort_new device_1024_48K trait_8_4 3 = Some (Inr (short_sorter 3 3 1))
   \<and> \<not> power_of_two (rangeKernelSize (short_sorter 3 3 1))"
  by code_simp


text \<open>
  Claim C3, amended. In every scheduler that was constructed, the three group sizes do not
  exceed the device's maximum block size, and each is a power of two unless its clamp cut it:
  \<^verbatim>\<open>rangeKernelSize\<close> is a power of two or the length, \<^verbatim>\<open>positionsKernelSize\<close> is a
  power of two or the number of buckets, \<^verbatim>\<open>sortKernelSize\<close> is a power of two or the
  capacity of the local buffer.
\<close>

theorem group_sizes_bounded_and_power_of_two_unless_clamped:
  assumes "CudaSort_new device tr len = Some (Inr s)"
  shows "uint (rangeKernelSize s) \<le> sint (MAX_BLOCK_DIM_X device)
    \<and> uint (positionsKernelSize s) \<le> sint (MAX_BLOCK_DIM_X device)
    \<and> uint (sortKernelSize s) \<le> sint (MAX_BLOCK_DIM_X device)
    \<and> (power_of_two (rangeKernelSize s) \<or> rangeKernelSize s = len)
    \<and> (power_of_two (positionsKernelSize s)
         \<or> numBuckets_of len (sortKernelSize s) = Inr (positionsKernelSize s))
    \<and> (power_of_two (sortKernelSize s)
         \<or> maxLocalBuffer_of (MAX_SHARED_MEMORY_PER_BLOCK device) (getDataSize tr)
              = Inr (sortKernelSize s))"
proof -
  let ?m = "MAX_BLOCK_DIM_X device"
  from assms obtain b p n where f:
    "maxLocalBuffer_of (MAX_SHARED_MEMORY_PER_BLOCK device) (getDataSize tr) = Inr b"
    "rangeLoop 1 ?m = Some p"
    "numBuckets_of len (sortKernelSize s) = Inr n"
    "4 \<le> uint p"
    "uint (sortKernelSize s) = min (if isShortList s then uint p div 2 else uint p div 4) (uint b)"
    "sortKernelSize s = (if isShortList s then p div 2 else p div 4) \<or> sortKernelSize s = b"
    "rangeKernelSize s = (if p > len then len else p)"
    "positionsKernelSize s = (if p > n then n else p)"
    by (rule CudaSort_new_sizes)
  note r = rangeSize_facts [OF f(2,4)]
  have p: "power_of_two p" using r(1) by (simp add: largest_power_of_two_le_def)
  have pm: "uint p \<le> sint ?m" using r(4,5) by simp
  have "uint (rangeKernelSize s) \<le> uint p"
    by (simp add: f(7) word_less_def)
  moreover have "uint (positionsKernelSize s) \<le> uint p"
    by (simp add: f(8) word_less_def)
  moreover have "uint (sortKernelSize s) \<le> uint p"
  proof -
    have "uint p div 2 \<le> uint p" "uint p div 4 \<le> uint p"
      using f(4) by simp_all
    then show ?thesis unfolding f(5) by (simp add: min_le_iff_disj)
  qed
  moreover have "power_of_two (rangeKernelSize s) \<or> rangeKernelSize s = len"
    using p by (simp add: f(7))
  moreover have "power_of_two (positionsKernelSize s)
      \<or> numBuckets_of len (sortKernelSize s) = Inr (positionsKernelSize s)"
    using p f(3) by (simp add: f(8))
  moreover have "power_of_two (sortKernelSize s)
      \<or> maxLocalBuffer_of (MAX_SHARED_MEMORY_PER_BLOCK device) (getDataSize tr) = Inr (sortKernelSize s)"
    using f(6) f(1) r(2,3) by auto
  ultimately show ?thesis using pm by simp
qed

theorem group_sizes_bounded_and_power_of_two_unless_clamped_witness:
  "CudaSort_new device_1024_48K trait_8_4 2000 = Some (Inr (short_sorter 2000 1024 7))
   \<and> uint (rangeKernelSize (short_sorter 2000 1024 7)) \<le> sint (MAX_BLOCK_DIM_X device_1024_48K)
   \<and> (power_of_two (positionsKernelSize (short_sorter 2000 1024 7))
       \<or> numBuckets_of 2000 (sortKernelSize (short_sorter 2000 1024 7))
            = Inr (positionsKernelSize (short_sorter 2000 1024 7)))"
  using group_sizes_bounded_and_power_of_two_unless_clamped [OF new_short_2000] new_short_2000
  by simp

section \<open>The number of buckets (claim C4)\<close>

text \<open>
  Claim C4 as stated fails in one part: lines 69-74 are not under \<^verbatim>\<open>if (!isShortList)\<close>, so
  the number of buckets is computed on the short-list path as well, and it clamps
  \<^verbatim>\<open>positionsKernelSize\<close> there. For length 2000 on the scenario device the list is short,
  the loop leaves 1024, the number of buckets is 7 and \<^verbatim>\<open>positionsKernelSize\<close> is 7.
\<close>

theorem numBuckets_counterexample:
  "CudaSort_new device_1024_48K trait_8_4 2000 = Some (Inr (short_sorter 2000 1024 7))
   \<and> isShortList (short_sorter 2000 1024 7)
   \<and> rangeLoop 1 (MAX_BLOCK_DIM_X device_1024_48K) = Some 1024
   \<and> numBuckets_of 2000 (sortKernelSize (short_sorter 2000 1024 7)) = Inr 7
   \<and> positionsKernelSize (short_sorter 2000 1024 7) = 7"
  by code_simp


text \<open>
  Claim C4, amended. In every scheduler that was constructed, on either path, the number
  of buckets is \<open>max 1 (length div (sortKernelSize div 2))\<close>, so it is at least 1;
  \<^verbatim>\<open>positionsKernelSize\<close> is the smaller of it and the largest power of two not exceeding
  the block size; and it is kept, as the size of \<^verbatim>\<open>bucketOffset\<close>, only when the list is not
  short.
\<close>

theorem numBuckets_formula_on_both_paths:
  assumes "CudaSort_new device tr len = Some (Inr s)"
  shows "\<exists>numBuckets p.
      numBuckets_of len (sortKernelSize s) = Inr numBuckets
    \<and> uint numBuckets = max 1 (uint len div (uint (sortKernelSize s) div 2))
    \<and> 1 \<le> uint numBuckets
    \<and> largest_power_of_two_le p (MAX_BLOCK_DIM_X device)
    \<and> uint (positionsKernelSize s) = min (uint p) (uint numBuckets)
    \<and> bucketOffset s = (if isShortList s then None
                         else Some \<lparr>getSize = numBuckets, getElementSize = 4\<rparr>)"
proof -
  from assms obtain p n where f:
    "rangeLoop 1 (MAX_BLOCK_DIM_X device) = Some p"
    "numBuckets_of len (sortKernelSize s) = Inr n"
    "positionsKernelSize s = (if p > n then n else p)"
    "bucketOffset s = (if isShortList s then None else Some \<lparr>getSize = n, getElementSize = 4\<rparr>)"
    by (rule CudaSort_new_Inr)
  from assms obtain p' where g: "rangeLoop 1 (MAX_BLOCK_DIM_X device) = Some p'" "4 \<le> uint p'"
    by (rule CudaSort_new_sizes)
  have four: "4 \<le> uint p" using f(1) g by simp
  have n: "uint n = max 1 (uint len div (uint (sortKernelSize s) div 2))"
    by (rule numBuckets_of_Inr(2) [OF f(2)])
  have "uint (positionsKernelSize s) = min (uint p) (uint n)"
    by (simp add: f(3) word_less_def min_def)
  with f(2,4) n rangeSize_facts(1) [OF f(1) four] show ?thesis
    by (intro exI [of _ n] exI [of _ p]) simp
qed

theorem numBuckets_formula_on_both_paths_witness:
  "CudaSort_new device_1024_48K trait_8_4 1000000
     = Some (Inr (bucket_sorter trait_8_4 1000000 7812 1024 256))
   \<and> (\<exists>numBuckets. uint numBuckets = max 1 (uint (1000000 :: c_uint) div (uint (256 :: c_uint) div 2))
        \<and> bucketOffset (bucket_sorter trait_8_4 1000000 7812 1024 256)
             = Some \<lparr>getSize = numBuckets, getElementSize = 4\<rparr>)"
  using numBuckets_formula_on_both_paths [OF new_bucket_million] new_bucket_million
  by auto


section \<open>The sort kernel's group size (claim C9)\<close>

lemma new_short_clamped:
  "CudaSort_new device_1024_48K \<lparr>getDataSize = 64, getKeySize = 4\<rparr> 300
     = Some (Inr \<lparr>trait = \<lparr>getDataSize = 64, getKeySize = 4\<rparr>, dataRange = None,
          bucketOfElement = None, offsetInBucket = None, bucketOffset = None, buckets = None,
          dataLength = 300, rangeKernelSize = 300, positionsKernelSize = 1,
          sortKernelSize = 384, isShortList = True\<rparr>)"
  by code_simp

text \<open>
  Claim C9. For a record of positive data size \<open>D\<close> and a device with shared memory
  \<open>S \<ge> 0\<close>: the constructor returns a scheduler whenever the block size is at least 8 and
  \<open>\<lfloor>S / D / 2\<rfloor>\<close> at least 2; and in every scheduler it returns, with \<open>p\<close> the largest power of
  two not exceeding the block size (the value of \<^verbatim>\<open>rangeKernelSize\<close> when line 64 reads it),
  \<^verbatim>\<open>sortKernelSize\<close> is \<open>p div 2\<close> for a short list and \<open>p div 4\<close> otherwise, cut down to
  \<open>\<lfloor>S / D / 2\<rfloor>\<close> if it exceeds it. And on the device with block size 1024 and 49152 bytes of
  shared memory, a record of 8 bytes and length 1000000 give \<^verbatim>\<open>isShortList\<close> false,
  \<^verbatim>\<open>sortKernelSize\<close> 256, 7812 buckets and \<^verbatim>\<open>positionsKernelSize\<close> 1024.
\<close>

theorem sortKernelSize_derivation:
  assumes "0 < sint (getDataSize tr)"
    and "0 \<le> sint (MAX_SHARED_MEMORY_PER_BLOCK device)"
  shows "(8 \<le> sint (MAX_BLOCK_DIM_X device)
          \<and> 2 \<le> \<lfloor>real_of_int (sint (MAX_SHARED_MEMORY_PER_BLOCK device))
                     / real_of_int (sint (getDataSize tr)) / 2\<rfloor>
          \<longrightarrow> (\<exists>s. CudaSort_new device tr len = Some (Inr s)))
    \<and> (\<forall>s. CudaSort_new device tr len = Some (Inr s) \<longrightarrow>
          (\<exists>p. largest_power_of_two_le p (MAX_BLOCK_DIM_X device)
            \<and> uint (sortKernelSize s) =
                min (if isShortList s then uint p div 2 else uint p div 4)
                    \<lfloor>real_of_int (sint (MAX_SHARED_MEMORY_PER_BLOCK device))
                       / real_of_int (sint (getDataSize tr)) / 2\<rfloor>))
    \<and> (\<exists>s'. CudaSort_new device_1024_48K \<lparr>getDataSize = 8, getKeySize = 4\<rparr> 1000000 = Some (Inr s')
            \<and> isShortList s' = False
            \<and> sortKernelSize s' = 256
            \<and> numBuckets_of 1000000 (sortKernelSize s') = Inr 7812
            \<and> bucketOffset s' = Some \<lparr>getSize = 7812, getElementSize = 4\<rparr>
            \<and> positionsKernelSize s' = 1024)"
proof -
  let ?S = "MAX_SHARED_MEMORY_PER_BLOCK device" and ?D = "getDataSize tr"
  note fl = capacity_floor [OF assms]
  obtain b where b: "maxLocalBuffer_of ?S ?D = Inr b" "uint b = uint ?S div uint ?D div 2"
    using maxLocalBuffer_of_nonneg [OF assms] by blast
  have total: "\<exists>s. CudaSort_new device tr len = Some (Inr s)"
    if "8 \<le> sint (MAX_BLOCK_DIM_X device)"
      and "2 \<le> \<lfloor>real_of_int (sint ?S) / real_of_int (sint ?D) / 2\<rfloor>"
    using that(2) by (intro CudaSort_new_succeeds assms that(1)) (simp only: fl)
  have general: "\<exists>p. largest_power_of_two_le p (MAX_BLOCK_DIM_X device)
            \<and> uint (sortKernelSize s) =
                min (if isShortList s then uint p div 2 else uint p div 4)
                    \<lfloor>real_of_int (sint ?S) / real_of_int (sint ?D) / 2\<rfloor>"
    if new: "CudaSort_new device tr len = Some (Inr s)" for s
  proof -
    from new obtain b' p where f:
      "maxLocalBuffer_of ?S ?D = Inr b'"
      "rangeLoop 1 (MAX_BLOCK_DIM_X device) = Some p"
      "4 \<le> uint p"
      "uint (sortKernelSize s) = min (if isShortList s then uint p div 2 else uint p div 4) (uint b')"
      by (rule CudaSort_new_sizes)
    have "b' = b" using f(1) b(1) by simp
    with f(4) b(2) rangeSize_facts(1) [OF f(2,3)] show ?thesis
      unfolding fl by (intro exI [of _ p]) simp
  qed
  have "numBuckets_of 1000000 256 = Inr 7812" by code_simp
  with new_bucket_million
  have scenario: "\<exists>s'. CudaSort_new device_1024_48K \<lparr>getDataSize = 8, getKeySize = 4\<rparr> 1000000 = Some (Inr s')
            \<and> isShortList s' = False
            \<and> sortKernelSize s' = 256
            \<and> numBuckets_of 1000000 (sortKernelSize s') = Inr 7812
            \<and> bucketOffset s' = Some \<lparr>getSize = 7812, getElementSize = 4\<rparr>
            \<and> positionsKernelSize s' = 1024"
    by (intro exI [of _ "bucket_sorter trait_8_4 1000000 7812 1024 256"]) simp
  from total general scenario show ?thesis by blast
qed

text \<open>
  The theorem at work where the clamp of lines 67-68 applies: a record of 64 bytes leaves
  room for 384 records, a short list of 300 would get \<open>1024 div 2 = 512\<close>, and the sort
  kernel's group size is cut to 384.
\<close>

theorem sortKernelSize_derivation_witness:
  "0 < sint (getDataSize \<lparr>getDataSize = 64, getKeySize = 4\<rparr>)
   \<and> 0 \<le> sint (MAX_SHARED_MEMORY_PER_BLOCK device_1024_48K)
   \<and> 8 \<le> sint (MAX_BLOCK_DIM_X device_1024_48K)
   \<and> 2 \<le> \<lfloor>real_of_int (sint (49152 :: c_int)) / real_of_int (sint (64 :: c_int)) / 2\<rfloor>
   \<and> (\<exists>s. CudaSort_new device_1024_48K \<lparr>getDataSize = 64, getKeySize = 4\<rparr> 300 = Some (Inr s)
          \<and> isShortList s \<and> sortKernelSize s = 384)
   \<and> (\<exists>p. largest_power_of_two_le p 1024
          \<and> (384 :: int) = min (uint p div 2)
               \<lfloor>real_of_int (sint (49152 :: c_int)) / real_of_int (sint (64 :: c_int)) / 2\<rfloor>)
   \<and> (\<exists>p. largest_power_of_two_le p 1024
          \<and> (512 :: int) = min (uint p div 2)
               \<lfloor>real_of_int (sint (49152 :: c_int)) / real_of_int (sint (8 :: c_int)) / 2\<rfloor>)"
proof -
  have d: "0 < sint (getDataSize \<lparr>getDataSize = 64 :: c_int, getKeySize = 4 :: c_int\<rparr>)" by simp
  have d8: "0 < sint (getDataSize trait_8_4)" by simp
  have m: "0 \<le> sint (MAX_SHARED_MEMORY_PER_BLOCK device_1024_48K)" by simp
  have blk: "8 \<le> sint (MAX_BLOCK_DIM_X device_1024_48K)" by simp
  have cap: "2 \<le> \<lfloor>real_of_int (sint (49152 :: c_int)) / real_of_int (sint (64 :: c_int)) / 2\<rfloor>"
    by simp
  have new: "\<exists>s. CudaSort_new device_1024_48K \<lparr>getDataSize = 64, getKeySize = 4\<rparr> 300 = Some (Inr s)
          \<and> isShortList s \<and> sortKernelSize s = 384"
    using new_short_clamped by simp
  from sortKernelSize_derivation [OF d m, of 300] new_short_clamped
  have clamped: "\<exists>p. largest_power_of_two_le p 1024
          \<and> (384 :: int) = min (uint p div 2)
               \<lfloor>real_of_int (sint (49152 :: c_int)) / real_of_int (sint (64 :: c_int)) / 2\<rfloor>"
    by simp
  from sortKernelSize_derivation [OF d8 m, of 2000] new_short_2000
  have plain: "\<exists>p. largest_power_of_two_le p 1024
          \<and> (512 :: int) = min (uint p div 2)
               \<lfloor>real_of_int (sint (49152 :: c_int)) / real_of_int (sint (8 :: c_int)) / 2\<rfloor>"
    by simp
  from d m blk cap new clamped plain show ?thesis by simp
qed


section \<open>The divisor of line 70 (claim C10)\<close>

text \<open>
  Claim C10 says that \<^verbatim>\<open>targetBucketSize\<close> is never zero. The constructor divides by it
  unguarded, and it is zero whenever \<^verbatim>\<open>sortKernelSize\<close> is below 2: with a record of 16384
  bytes on the scenario device the local buffer holds one record, so for length 100 the
  list is not short, \<^verbatim>\<open>sortKernelSize\<close> is cut from 256 to 1 and line 70 divides by zero;
  likewise on a device whose block size is 1. Lemma \<open>CudaSort_new_succeeds\<close> gives the
  inputs on which the division is safe.
\<close>

theorem construction_divides_by_zero:
  "maxLocalBuffer_of 49152 16384 = Inr 1
   \<and> sortKernelSize_of False 1024 1 = 1
   \<and> numBuckets_of 100 1 = Inl DivisionByZero
   \<and> CudaSort_new device_1024_48K \<lparr>getDataSize = 16384, getKeySize = 4\<rparr> 100
        = Some (Inl DivisionByZero)
   \<and> CudaSort_new \<lparr>MAX_BLOCK_DIM_X = 1, MAX_SHARED_MEMORY_PER_BLOCK = 49152\<rparr> trait_8_4 100
        = Some (Inl DivisionByZero)"
  by code_simp

section \<open>Validation of the buffer (claim C5)\<close>

text \<open>
  Claim C5. \<^verbatim>\<open>sort\<close> throws its \<^verbatim>\<open>OpenMMException\<close> exactly when the buffer's length differs
  from the configured length or its element size differs from the trait's data size; and
  when it throws, the list of backend calls is the one it was given: no kernel was launched
  and no buffer cleared. The scheduler itself is never written by \<^verbatim>\<open>sort\<close>.
\<close>

theorem sort_mismatch_raises_before_device_work:
  "((\<exists>msg. fst (CudaSort_sort s data calls) = Inl (OpenMMException msg)) \<longleftrightarrow>
      (getSize data \<noteq> dataLength s \<or> getElementSize data \<noteq> getDataSize (trait s)))
   \<and> (getSize data \<noteq> dataLength s \<or> getElementSize data \<noteq> getDataSize (trait s) \<longrightarrow>
        snd (CudaSort_sort s data calls) = calls)"
  by (auto simp: CudaSort_sort_def sortBucketPath_def Let_def split: option.splits)

theorem sort_mismatch_raises_before_device_work_witness:
  "getSize \<lparr>getSize = 1999, getElementSize = 8\<rparr> \<noteq> dataLength (short_sorter 2000 1024 7)
   \<and> (\<exists>msg. fst (CudaSort_sort (short_sorter 2000 1024 7) \<lparr>getSize = 1999, getElementSize = 8\<rparr>
                  [ClearBuffer BucketOffset]) = Inl (OpenMMException msg))
   \<and> snd (CudaSort_sort (short_sorter 2000 1024 7) \<lparr>getSize = 1999, getElementSize = 8\<rparr>
            [ClearBuffer BucketOffset]) = [ClearBuffer BucketOffset]"
  using sort_mismatch_raises_before_device_work
    [of "short_sorter 2000 1024 7" "\<lparr>getSize = 1999, getElementSize = 8\<rparr>" "[ClearBuffer BucketOffset]"]
  by simp

section \<open>The empty list (claim C6)\<close>

lemma new_empty:
  "CudaSort_new device_1024_48K trait_8_4 0 = Some (Inr (short_sorter 0 0 1))"
  by code_simp

text \<open>
  Claim C6. For a scheduler configured with length 0, no call to \<^verbatim>\<open>sort\<close> issues a kernel
  launch or a buffer clear; and every call with a buffer that meets the precondition of
  \<^verbatim>\<open>sort\<close> (the configured length, here 0, and the trait's element size) succeeds and
  returns at once, the list of backend calls being the one it was given.
\<close>

theorem sort_length_zero_no_device_work:
  "dataLength s = 0 \<Longrightarrow>
     snd (CudaSort_sort s data calls) = calls
     \<and> (getSize data = dataLength s \<and> getElementSize data = getDataSize (trait s)
          \<longrightarrow> CudaSort_sort s data calls = (Inr (), calls))"
  by (auto simp: CudaSort_sort_def)

theorem sort_length_zero_no_device_work_witness:
  "CudaSort_new device_1024_48K trait_8_4 0 = Some (Inr (short_sorter 0 0 1))
   \<and> dataLength (short_sorter 0 0 1) = 0
   \<and> getSize \<lparr>getSize = 0, getElementSize = 8\<rparr> = dataLength (short_sorter 0 0 1)
   \<and> getElementSize \<lparr>getSize = 0, getElementSize = 8\<rparr> = getDataSize (trait (short_sorter 0 0 1))
   \<and> CudaSort_sort (short_sorter 0 0 1) \<lparr>getSize = 0, getElementSize = 8\<rparr>
         [ClearBuffer BucketOffset] = (Inr (), [ClearBuffer BucketOffset])"
  using sort_length_zero_no_device_work
      [of "short_sorter 0 0 1" "\<lparr>getSize = 0, getElementSize = 8\<rparr>" "[ClearBuffer BucketOffset]"]
    new_empty
  by simp

section \<open>The launches of a sort (claims C7 and C8)\<close>

lemma uint_mult_32: "uint x * uint y < 4294967296 \<Longrightarrow> uint (x * y :: 32 word) = uint x * uint y"
  using uint_mult_lem [of x y] by simp

lemma uint_add_32: "uint x + uint y < 4294967296 \<Longrightarrow> uint (x + y :: 32 word) = uint x + uint y"
  using uint_add_lem [of x y] by simp

lemma product_within_capacity:
  fixes n d S :: int
  assumes "0 < d" "0 \<le> S" "n \<le> S div d div 2"
  shows "n * d \<le> S div 2"
proof -
  have "S div d div 2 = S div (d * 2)"
    using assms(1) by (simp add: zdiv_zmult2_eq)
  then have "n \<le> S div (d * 2)" using assms(3) by simp
  moreover have "0 \<le> d * 2" using assms(1) by simp
  ultimately have "n * (d * 2) \<le> S div (d * 2) * (d * 2)"
    by (rule mult_right_mono)
  moreover have "S div (d * 2) * (d * 2) + S mod (d * 2) = S"
    by (rule div_mult_mod_eq)
  moreover have "0 \<le> S mod (d * 2)"
    using assms(1) by simp
  ultimately have "n * (d * 2) \<le> S" by linarith
  moreover have "n * (d * 2) = n * d * 2" by simp
  ultimately show ?thesis by linarith
qed

lemma ceiling_quotient:
  fixes a b :: int
  assumes "0 < b"
  shows "\<lceil>real_of_int a / real_of_int b\<rceil> = (a + b - 1) div b"
proof -
  have c: "\<lceil>real_of_int a / real_of_int b\<rceil> = - (- a div b)"
    by (rule ceiling_divide_eq_div)
  have r: "0 \<le> a mod b" "a mod b < b" using assms by simp_all
  show ?thesis
  proof (cases "a mod b = 0")
    case True
    have "a + b - 1 = b * (a div b) + (b - 1)"
      using div_mult_mod_eq [of a b] True by (simp add: algebra_simps)
    then have "(a + b - 1) div b = a div b"
      using assms by (intro int_div_pos_eq [where r = "b - 1"]) simp_all
    moreover have "- a div b = - (a div b)"
      using True assms by (simp add: zdiv_zminus1_eq_if)
    ultimately show ?thesis using c by simp
  next
    case False
    then have pos: "0 < a mod b" using r(1) by simp
    have "a + b - 1 = b * (a div b + 1) + (a mod b - 1)"
      using div_mult_mod_eq [of a b] by (simp add: algebra_simps)
    then have "(a + b - 1) div b = a div b + 1"
      using assms pos r(2) by (intro int_div_pos_eq [where r = "a mod b - 1"]) simp_all
    moreover have "- a div b = - (a div b) - 1"
      using False assms by (simp add: zdiv_zminus1_eq_if)
    ultimately show ?thesis using c by simp
  qed
qed

lemma sortBuckets_threads:
  fixes len sortSize :: "32 word"
  assumes "uint len < 2147483648" "0 < uint sortSize" "uint sortSize < 1073741824"
  shows "uint (((len + sortSize - 1) div sortSize) * sortSize)
           = \<lceil>real_of_int (uint len) / real_of_int (uint sortSize)\<rceil> * uint sortSize"
proof -
  let ?a = "uint len" and ?b = "uint sortSize"
  have a0: "0 \<le> ?a" by simp
  have sum: "uint (len + sortSize) = ?a + ?b"
    using assms by (intro uint_add_32) simp
  have "1 \<le> ?a + ?b" using a0 assms(2) by linarith
  then have "uint (1 :: 32 word) \<le> uint (len + sortSize)"
    by (simp add: sum)
  then have num: "uint (len + sortSize - 1) = ?a + ?b - 1"
    using sum uint_sub_lem [of 1 "len + sortSize"] by simp
  have q: "uint ((len + sortSize - 1) div sortSize) = (?a + ?b - 1) div ?b"
    by (simp add: uint_div_distrib num)
  have "(?a + ?b - 1) div ?b * ?b + (?a + ?b - 1) mod ?b = ?a + ?b - 1"
    by (rule div_mult_mod_eq)
  moreover have "0 \<le> (?a + ?b - 1) mod ?b"
    using assms(2) by simp
  ultimately have "(?a + ?b - 1) div ?b * ?b \<le> ?a + ?b - 1" by linarith
  then have "(?a + ?b - 1) div ?b * ?b < 4294967296"
    using assms by linarith
  then have "uint ((len + sortSize - 1) div sortSize) * ?b < 4294967296"
    using q by simp
  then have "uint (((len + sortSize - 1) div sortSize) * sortSize) = (?a + ?b - 1) div ?b * ?b"
    using q by (simp add: uint_mult_32)
  then show ?thesis
    by (simp only: ceiling_quotient [OF assms(2)])
qed

lemma CudaSort_sort_calls:
  assumes new: "CudaSort_new device tr len = Some (Inr s)"
    and nb: "numBuckets_of len (sortKernelSize s) = Inr numBuckets"
    and buf: "getSize data = dataLength s" "getElementSize data = getDataSize (trait s)"
    and ne: "getSize data \<noteq> 0"
  shows "CudaSort_sort s data calls = (Inr (), calls @
     (if isShortList s
      then [ExecuteKernel sortShortList [DataPointer, UIntValue len]
              (uint (sortKernelSize s)) (Some (uint (sortKernelSize s)))
              (Some (uint (len * getDataSize tr)))]
      else [ExecuteKernel computeRange
              [DataPointer, UIntValue len, WorkspacePointer DataRange]
              (uint (rangeKernelSize s)) (Some (uint (rangeKernelSize s)))
              (Some (uint (rangeKernelSize s * getKeySize tr))),
            ClearBuffer BucketOffset,
            ExecuteKernel assignElementsToBuckets
              [DataPointer, UIntValue len, UIntValue numBuckets, WorkspacePointer DataRange,
               WorkspacePointer BucketOffset, WorkspacePointer BucketOfElement,
               WorkspacePointer OffsetInBucket]
              (sint len) None None,
            ExecuteKernel computeBucketPositions
              [UIntValue numBuckets, WorkspacePointer BucketOffset]
              (uint (positionsKernelSize s))
              (Some (uint (positionsKernelSize s))) (Some (uint (positionsKernelSize s) * 4)),
            ExecuteKernel copyDataToBuckets
              [DataPointer, WorkspacePointer Buckets, UIntValue len, WorkspacePointer BucketOffset,
               WorkspacePointer BucketOfElement, WorkspacePointer OffsetInBucket]
              (sint len) None None,
            ExecuteKernel sortBuckets
              [DataPointer, WorkspacePointer Buckets, UIntValue numBuckets,
               WorkspacePointer BucketOffset]
              (uint (((len + sortKernelSize s - 1) div sortKernelSize s) * sortKernelSize s))
              (Some (uint (sortKernelSize s)))
              (Some (uint (sortKernelSize s * getDataSize tr)))]))"
proof -
  from new obtain n where f:
    "numBuckets_of len (sortKernelSize s) = Inr n"
    "dataLength s = len" "trait s = tr"
    "bucketOffset s = (if isShortList s then None else Some \<lparr>getSize = n, getElementSize = 4\<rparr>)"
    "dataRange s = (if isShortList s then None else Some \<lparr>getSize = 2, getElementSize = getKeySize tr\<rparr>)"
    "bucketOfElement s = (if isShortList s then None else Some \<lparr>getSize = len, getElementSize = 4\<rparr>)"
    "offsetInBucket s = (if isShortList s then None else Some \<lparr>getSize = len, getElementSize = 4\<rparr>)"
    "buckets s = (if isShortList s then None else Some \<lparr>getSize = len, getElementSize = getDataSize tr\<rparr>)"
    by (rule CudaSort_new_Inr)
  have n: "n = numBuckets" using f(1) nb by simp
  have "2 \<le> uint (sortKernelSize s)" by (rule numBuckets_of_Inr(1) [OF f(1)])
  then have nz: "sortKernelSize s \<noteq> 0" by auto
  show ?thesis
  proof (cases "isShortList s")
    case True
    then show ?thesis using buf ne f(2,3) by (simp add: CudaSort_sort_def)
  next
    case False
    then show ?thesis using buf ne nz f(2-) n
      by (simp add: CudaSort_sort_def sortBucketPath_def Let_def)
  qed
qed

lemma int_half_le: "0 \<le> (x::int) \<Longrightarrow> x div 2 \<le> x"
  by presburger

lemma shared_grants_exact:
  assumes d: "0 < sint (getDataSize tr)"
    and m: "0 \<le> sint (MAX_SHARED_MEMORY_PER_BLOCK device)"
    and new: "CudaSort_new device tr len = Some (Inr s)"
  shows "uint (sortKernelSize s * getDataSize tr) = uint (sortKernelSize s) * sint (getDataSize tr)"
    and "uint (sortKernelSize s) * sint (getDataSize tr) \<le> sint (MAX_SHARED_MEMORY_PER_BLOCK device)"
    and "isShortList s \<Longrightarrow> uint (len * getDataSize tr) = uint len * sint (getDataSize tr)"
    and "isShortList s \<Longrightarrow> uint len * sint (getDataSize tr) \<le> sint (MAX_SHARED_MEMORY_PER_BLOCK device)"
proof -
  let ?S = "MAX_SHARED_MEMORY_PER_BLOCK device" and ?D = "getDataSize tr"
  obtain b where b: "maxLocalBuffer_of ?S ?D = Inr b" "uint b = uint ?S div uint ?D div 2"
    using maxLocalBuffer_of_nonneg [OF d m] by blast
  have sg: "sint ?S = uint ?S" "sint ?D = uint ?D" "0 < uint ?D" "0 \<le> uint ?S" "uint ?S < 2147483648"
    using d m by (simp_all add: sint_nonneg_uint sint_pos_uint sint_nonneg_32 [symmetric])
  from new obtain b' and p :: c_uint where f:
    "maxLocalBuffer_of ?S ?D = Inr b'"
    "uint (sortKernelSize s) = min (if isShortList s then uint p div 2 else uint p div 4) (uint b')"
    "isShortList s = (len \<le> b')"
    by (rule CudaSort_new_sizes)
  have bb: "b' = b" using f(1) b(1) by simp
  have within: "n * uint ?D \<le> uint ?S div 2" if "n \<le> uint b" for n
    using that sg(3,4) by (intro product_within_capacity) (simp_all add: b(2))
  have half: "uint ?S div 2 \<le> uint ?S" by (rule int_half_le) simp
  have sk: "uint (sortKernelSize s) \<le> uint b" by (simp add: f(2) bb)
  from within [OF sk] half sg(5)
  have "uint (sortKernelSize s) * uint ?D < 4294967296" by linarith
  then show "uint (sortKernelSize s * ?D) = uint (sortKernelSize s) * sint ?D"
    by (simp add: uint_mult_32 sg(2))
  show "uint (sortKernelSize s) * sint ?D \<le> sint ?S"
    using within [OF sk] half by (simp add: sg(1,2))
  assume "isShortList s"
  then have ln: "uint len \<le> uint b" by (simp add: f(3) bb word_le_def)
  from within [OF ln] half sg(5)
  have "uint len * uint ?D < 4294967296" by linarith
  then show "uint (len * ?D) = uint len * sint ?D"
    by (simp add: uint_mult_32 sg(2))
  show "uint len * sint ?D \<le> sint ?S"
    using within [OF ln] half by (simp add: sg(1,2))
qed

lemma sortKernelSize_below:
  assumes "CudaSort_new device tr len = Some (Inr s)"
  shows "0 < uint (sortKernelSize s)" and "uint (sortKernelSize s) < 1073741824"
proof -
  from assms obtain b p :: c_uint where f:
    "rangeLoop 1 (MAX_BLOCK_DIM_X device) = Some p"
    "4 \<le> uint p"
    "2 \<le> uint (sortKernelSize s)"
    and u: "uint (sortKernelSize s) = min (if isShortList s then uint p div 2 else uint p div 4) (uint b)"
    by (rule CudaSort_new_sizes)
  have "uint p div 4 \<le> uint p div 2"
    by (rule zdiv_mono2) simp_all
  then have "uint (sortKernelSize s) \<le> uint p div 2"
    unfolding u by (simp add: min_le_iff_disj)
  note f = f this
  from rangeSize_facts(4,5) [OF f(1,2)]
  have "uint p \<le> sint (MAX_BLOCK_DIM_X device)" by simp
  moreover have "sint (MAX_BLOCK_DIM_X device) < 2147483648"
    using sint_lt [of "MAX_BLOCK_DIM_X device"] by simp
  ultimately have "uint p div 2 < 1073741824" by linarith
  with f(4) show "uint (sortKernelSize s) < 1073741824" by linarith
  from f(3) show "0 < uint (sortKernelSize s)" by linarith
qed

text \<open>
  Claim C7. A call of \<^verbatim>\<open>sort\<close> on a constructed scheduler with a matching, non-empty buffer
  succeeds and appends exactly one of two sequences of backend calls. For a short list: one
  launch of \<^verbatim>\<open>sortShortList\<close> with \<^verbatim>\<open>sortKernelSize\<close> threads in groups of
  \<^verbatim>\<open>sortKernelSize\<close> (one group) and \<open>length * dataSize\<close> bytes. Otherwise, in order:
  \<^verbatim>\<open>computeRange\<close>, the clear of \<^verbatim>\<open>bucketOffset\<close>, \<^verbatim>\<open>assignElementsToBuckets\<close> with one
  thread per element, \<^verbatim>\<open>computeBucketPositions\<close>, \<^verbatim>\<open>copyDataToBuckets\<close> with one thread per
  element, and \<^verbatim>\<open>sortBuckets\<close> with \<open>\<lceil>length / sortKernelSize\<rceil> * sortKernelSize\<close> threads
  in groups of \<^verbatim>\<open>sortKernelSize\<close>. The data size is positive, the shared-memory limit is
  not negative, and the buffer's size is a non-negative \<^verbatim>\<open>int\<close>.
\<close>

theorem sort_dispatches_exactly_one_path:
  assumes d: "0 < sint (getDataSize tr)"
    and m: "0 \<le> sint (MAX_SHARED_MEMORY_PER_BLOCK device)"
    and new: "CudaSort_new device tr len = Some (Inr s)"
    and buf: "getSize data = dataLength s" "getElementSize data = getDataSize (trait s)"
    and ne: "getSize data \<noteq> 0"
    and sz: "0 \<le> sint (getSize data)"
  shows "\<exists>numBuckets. numBuckets_of len (sortKernelSize s) = Inr numBuckets
    \<and> CudaSort_sort s data calls = (Inr (), calls @
     (if isShortList s
      then [ExecuteKernel sortShortList [DataPointer, UIntValue len]
              (uint (sortKernelSize s)) (Some (uint (sortKernelSize s)))
              (Some (uint len * sint (getDataSize tr)))]
      else [ExecuteKernel computeRange
              [DataPointer, UIntValue len, WorkspacePointer DataRange]
              (uint (rangeKernelSize s)) (Some (uint (rangeKernelSize s)))
              (Some (uint (rangeKernelSize s * getKeySize tr))),
            ClearBuffer BucketOffset,
            ExecuteKernel assignElementsToBuckets
              [DataPointer, UIntValue len, UIntValue numBuckets, WorkspacePointer DataRange,
               WorkspacePointer BucketOffset, WorkspacePointer BucketOfElement,
               WorkspacePointer OffsetInBucket]
              (uint len) None None,
            ExecuteKernel computeBucketPositions
              [UIntValue numBuckets, WorkspacePointer BucketOffset]
              (uint (positionsKernelSize s))
              (Some (uint (positionsKernelSize s))) (Some (uint (positionsKernelSize s) * 4)),
            ExecuteKernel copyDataToBuckets
              [DataPointer, WorkspacePointer Buckets, UIntValue len, WorkspacePointer BucketOffset,
               WorkspacePointer BucketOfElement, WorkspacePointer OffsetInBucket]
              (uint len) None None,
            ExecuteKernel sortBuckets
              [DataPointer, WorkspacePointer Buckets, UIntValue numBuckets,
               WorkspacePointer BucketOffset]
              (\<lceil>real_of_int (uint len) / real_of_int (uint (sortKernelSize s))\<rceil>
                 * uint (sortKernelSize s))
              (Some (uint (sortKernelSize s)))
              (Some (uint (sortKernelSize s) * sint (getDataSize tr)))]))
    \<and> 0 < uint (sortKernelSize s)"
proof -
  from new obtain n where nb: "numBuckets_of len (sortKernelSize s) = Inr n"
    and len: "dataLength s = len"
    by (rule CudaSort_new_Inr)
  have sl: "0 \<le> sint len" using sz buf(1) len by simp
  then have ul: "sint len = uint len" "uint len < 2147483648"
    by (simp_all add: sint_nonneg_uint sint_nonneg_32 [symmetric])
  note k = sortKernelSize_below [OF new]
  have threads: "uint (((len + sortKernelSize s - 1) div sortKernelSize s) * sortKernelSize s)
      = \<lceil>real_of_int (uint len) / real_of_int (uint (sortKernelSize s))\<rceil> * uint (sortKernelSize s)"
    using ul(2) k by (rule sortBuckets_threads)
  note g = shared_grants_exact [OF d m new]
  have "CudaSort_sort s data calls = (Inr (), calls @
     (if isShortList s
      then [ExecuteKernel sortShortList [DataPointer, UIntValue len]
              (uint (sortKernelSize s)) (Some (uint (sortKernelSize s)))
              (Some (uint len * sint (getDataSize tr)))]
      else [ExecuteKernel computeRange
              [DataPointer, UIntValue len, WorkspacePointer DataRange]
              (uint (rangeKernelSize s)) (Some (uint (rangeKernelSize s)))
              (Some (uint (rangeKernelSize s * getKeySize tr))),
            ClearBuffer BucketOffset,
            ExecuteKernel assignElementsToBuckets
              [DataPointer, UIntValue len, UIntValue n, WorkspacePointer DataRange,
               WorkspacePointer BucketOffset, WorkspacePointer BucketOfElement,
               WorkspacePointer OffsetInBucket]
              (uint len) None None,
            ExecuteKernel computeBucketPositions
              [UIntValue n, WorkspacePointer BucketOffset]
              (uint (positionsKernelSize s))
              (Some (uint (positionsKernelSize s))) (Some (uint (positionsKernelSize s) * 4)),
            ExecuteKernel copyDataToBuckets
              [DataPointer, WorkspacePointer Buckets, UIntValue len, WorkspacePointer BucketOffset,
               WorkspacePointer BucketOfElement, WorkspacePointer OffsetInBucket]
              (uint len) None None,
            ExecuteKernel sortBuckets
              [DataPointer, WorkspacePointer Buckets, UIntValue n,
               WorkspacePointer BucketOffset]
              (\<lceil>real_of_int (uint len) / real_of_int (uint (sortKernelSize s))\<rceil>
                 * uint (sortKernelSize s))
              (Some (uint (sortKernelSize s)))
              (Some (uint (sortKernelSize s) * sint (getDataSize tr)))]))"
    unfolding CudaSort_sort_calls [OF new nb buf ne]
    by (simp only: threads g(1) ul(1)) (simp add: g(3))
  with nb k(1) show ?thesis by blast
qed

theorem sort_dispatches_exactly_one_path_witness:
  "0 < sint (getDataSize trait_8_4)
   \<and> 0 \<le> sint (MAX_SHARED_MEMORY_PER_BLOCK device_1024_48K)
   \<and> CudaSort_new device_1024_48K trait_8_4 1000000
        = Some (Inr (bucket_sorter trait_8_4 1000000 7812 1024 256))
   \<and> getSize \<lparr>getSize = 1000000, getElementSize = 8\<rparr>
        = dataLength (bucket_sorter trait_8_4 1000000 7812 1024 256)
   \<and> getElementSize \<lparr>getSize = 1000000, getElementSize = 8\<rparr>
        = getDataSize (trait (bucket_sorter trait_8_4 1000000 7812 1024 256))
   \<and> getSize \<lparr>getSize = 1000000 :: c_int, getElementSize = 8 :: c_int\<rparr> \<noteq> 0
   \<and> 0 \<le> sint (getSize \<lparr>getSize = 1000000 :: c_int, getElementSize = 8 :: c_int\<rparr>)
   \<and> CudaSort_sort (bucket_sorter trait_8_4 1000000 7812 1024 256)
         \<lparr>getSize = 1000000, getElementSize = 8\<rparr> []
       = (Inr (),
          [ExecuteKernel computeRange
             [DataPointer, UIntValue 1000000, WorkspacePointer DataRange]
             1024 (Some 1024) (Some 4096),
           ClearBuffer BucketOffset,
           ExecuteKernel assignElementsToBuckets
             [DataPointer, UIntValue 1000000, UIntValue 7812, WorkspacePointer DataRange,
              WorkspacePointer BucketOffset, WorkspacePointer BucketOfElement,
              WorkspacePointer OffsetInBucket]
             1000000 None None,
           ExecuteKernel computeBucketPositions
             [UIntValue 7812, WorkspacePointer BucketOffset]
             1024 (Some 1024) (Some 4096),
           ExecuteKernel copyDataToBuckets
             [DataPointer, WorkspacePointer Buckets, UIntValue 1000000, WorkspacePointer BucketOffset,
              WorkspacePointer BucketOfElement, WorkspacePointer OffsetInBucket]
             1000000 None None,
           ExecuteKernel sortBuckets
             [DataPointer, WorkspacePointer Buckets, UIntValue 7812, WorkspacePointer BucketOffset]
             1000192 (Some 256) (Some 2048)])"
proof -
  have d: "0 < sint (getDataSize trait_8_4)" by simp
  have m: "0 \<le> sint (MAX_SHARED_MEMORY_PER_BLOCK device_1024_48K)" by simp
  have sz: "0 \<le> sint (getSize \<lparr>getSize = 1000000 :: c_int, getElementSize = 8 :: c_int\<rparr>)" by simp
  have nb: "numBuckets_of 1000000 256 = Inr 7812" by code_simp
  from sort_dispatches_exactly_one_path [OF d m new_bucket_million _ _ _ sz, of "[]"]
    d m sz new_bucket_million nb
  show ?thesis by simp
qed







section \<open>The effect of a sort on the buffer (claim C2)\<close>

subsection \<open>Buckets of a list\<close>









lemma length_bucketLists [simp]: "length (bucketLists f numBuckets xs) = numBuckets"
  by (simp add: bucketLists_def)

lemma nth_bucketLists [simp]:
  "c < numBuckets \<Longrightarrow> bucketLists f numBuckets xs ! c = filter (\<lambda>y. f y = c) xs"
  by (simp add: bucketLists_def)

















subsection \<open>The kernels of the bucket pipeline\<close>











subsection \<open>Sorted, a permutation, and what a second sort keeps\<close>








end
